theory Spec2Isabelle
  imports Complex_Main
begin

section \<open>The vector similarity store of app/services/vector\_store.py\<close>

text \<open>
  The class \<open>VectorStore\<close> keeps a FAISS flat L2 index, a dictionary from document
  identifiers to \<open>{"faiss_id", "metadata"}\<close> entries, and two files on disk that are
  rewritten after every mutation. The embedding below follows the class method by method.

  Conventions of the model:
  \<^item> a finite float32 value is a rational number. The cast \<open>astype('float32')\<close> of numpy
    and the distance arithmetic of the index round, and how they round is library
    behaviour outside the source tree: both are parameters of the model, gathered in
    the record \<open>numerics\<close>, and the properties below hold for every choice of them unless
    a statement names one. NaN and infinities are outside the model;
  \<^item> an embedding is a one-dimensional array, so \<open>embedding.shape[0]\<close> is its length;
  \<^item> a Python \<open>dict\<close> is an association list in insertion order with unique keys;
  \<^item> opaque metadata is a list of string pairs;
  \<^item> the disk holds the two files of the store: each is absent, present and readable,
    or present and unreadable (truncated or otherwise damaged). A readable file
    deserialises to the value that was written (\<open>faiss.write_index\<close> with
    \<open>faiss.read_index\<close>, \<open>pickle.dump\<close> with \<open>pickle.load\<close>); reading an unreadable file
    raises;
  \<^item> a method returns its result together with the store and the disk it leaves behind,
    so that an exception shows as an \<open>Inl\<close> result next to the state it left.
\<close>

subsection \<open>Data\<close>

type_synonym embedding = "rat list"

type_synonym metadata_dict = "(string \<times> string) list"

text \<open>
  The error kinds named by the specification. The source raises \<open>ValueError\<close> for a
  dimension mismatch (lines 51 and 82): that is \<open>DimensionMismatch\<close>. Inside \<open>__init__\<close>
  the calls of lines 23 to 25 raise the deserialiser's own exception on an unreadable
  file: the model files it under \<open>StorageCorruption\<close>, the kind the specification has for
  an unreadable snapshot. No path of the source produces \<open>DuplicateKey\<close>; it is here so
  that statements about it can be written.
\<close>

datatype error = DimensionMismatch | DuplicateKey | StorageCorruption

record index_flat =
  idx_dim :: nat
  idx_vectors :: "embedding list"

record doc_data =
  faiss_id :: int
  data_metadata :: metadata_dict

type_synonym metadata_table = "(string \<times> doc_data) list"

record vector_store =
  dimension :: nat
  index :: index_flat
  metadata :: metadata_table

datatype 'a stored_file = Unreadable | Readable 'a

record disk =
  index_file :: "index_flat stored_file option"
  metadata_file :: "metadata_table stored_file option"

record search_result =
  document_id :: string
  similarity :: rat
  result_metadata :: metadata_dict
  rank :: nat

subsection \<open>Floating point as a parameter\<close>

text \<open>
  \<open>float32\<close> is the value a component takes under \<open>astype('float32')\<close> (lines 54 and 85);
  \<open>l2_distance\<close> is the distance the index computes between a query and a stored
  vector, both already cast. Nothing is assumed of either.
\<close>

record numerics =
  float32 :: "rat \<Rightarrow> rat"
  l2_distance :: "embedding \<Rightarrow> embedding \<Rightarrow> rat"

definition astype_float32 :: "numerics \<Rightarrow> embedding \<Rightarrow> embedding" where
  "astype_float32 nm v = map (float32 nm) v"

text \<open>
  The squared Euclidean distance of the specification, and the numerics without
  rounding: the cast changes nothing and the distance is the exact squared Euclidean
  one. The closed examples below use it with small integer components, which float32
  holds exactly and on which sums of squares of differences are exact.
\<close>

definition l2sqr :: "embedding \<Rightarrow> embedding \<Rightarrow> rat" where
  "l2sqr x y = sum_list (map (\<lambda>(a, b). (a - b) * (a - b)) (zip x y))"

definition exact_numerics :: numerics where
  "exact_numerics = \<lparr>float32 = (\<lambda>x. x), l2_distance = l2sqr\<rparr>"

subsection \<open>The flat L2 index\<close>

text \<open>
  Modelled from the spec: the class \<open>faiss.IndexFlatL2\<close> (constructor, \<open>ntotal\<close>, \<open>add\<close>,
  \<open>search\<close>) belongs to the FAISS library and is not part of the source tree. The
  definitions of this subsection follow section 4.1 of the specification: an
  append-only sequence of vectors of one dimension, positions counted from 0, and an
  exact search that returns the \<open>k\<close> closest positions by distance, closest first, the
  earlier position first among equal distances. With \<open>exact_numerics\<close> the distance is
  the squared Euclidean distance of the specification.
\<close>

definition IndexFlatL2 :: "nat \<Rightarrow> index_flat" where
  "IndexFlatL2 dimn = \<lparr>idx_dim = dimn, idx_vectors = []\<rparr>"

definition ntotal :: "index_flat \<Rightarrow> nat" where
  "ntotal ix = length (idx_vectors ix)"

definition index_add :: "index_flat \<Rightarrow> embedding \<Rightarrow> error + index_flat" where
  "index_add ix v =
     (if length v \<noteq> idx_dim ix then Inl DimensionMismatch
      else Inr (ix\<lparr>idx_vectors := idx_vectors ix @ [v]\<rparr>))"

text \<open>
  Every stored vector is a candidate: its distance to the query, paired with its
  position. The search sorts the candidates by distance alone with a stable sort, so
  equal distances stay in insertion order, and keeps the first \<open>k\<close>.
\<close>

definition candidates :: "numerics \<Rightarrow> index_flat \<Rightarrow> embedding \<Rightarrow> (rat \<times> int) list" where
  "candidates nm ix q =
     zip (map (l2_distance nm q) (idx_vectors ix)) (map int [0..<ntotal ix])"

definition index_search ::
  "numerics \<Rightarrow> index_flat \<Rightarrow> embedding \<Rightarrow> nat \<Rightarrow> error + (rat \<times> int) list" where
  "index_search nm ix q k =
     (if length q \<noteq> idx_dim ix then Inl DimensionMismatch
      else Inr (take k (sort_key fst (candidates nm ix q))))"

subsection \<open>Dictionary operations\<close>

text \<open>
  \<open>d[k] = v\<close> replaces the value of a present key where it stands and appends a new key at
  the end; \<open>del d[k]\<close> removes the key; \<open>k in d\<close> tests for it.
\<close>

fun dict_setitem :: "('k \<times> 'v) list \<Rightarrow> 'k \<Rightarrow> 'v \<Rightarrow> ('k \<times> 'v) list" where
  "dict_setitem [] k v = [(k, v)]"
| "dict_setitem ((k', v') # rest) k v =
     (if k' = k then (k, v) # rest else (k', v') # dict_setitem rest k v)"

definition dict_delitem :: "('k \<times> 'v) list \<Rightarrow> 'k \<Rightarrow> ('k \<times> 'v) list" where
  "dict_delitem dct k = filter (\<lambda>kv. fst kv \<noteq> k) dct"

definition dict_contains :: "('k \<times> 'v) list \<Rightarrow> 'k \<Rightarrow> bool" where
  "dict_contains dct k = (k \<in> set (map fst dct))"

subsection \<open>Construction and persistence (lines 12 to 38)\<close>

text \<open>
  Reading a file that is present: \<open>faiss.read_index\<close> (line 32) and \<open>pickle.load\<close>
  (line 25) return the value of a readable file and raise on an unreadable one.
\<close>

definition read_file :: "'a stored_file \<Rightarrow> error + 'a" where
  "read_file f = (case f of Unreadable \<Rightarrow> Inl StorageCorruption | Readable x \<Rightarrow> Inr x)"

definition load_index :: "disk \<Rightarrow> error + index_flat" where
  "load_index dk =
     (case index_file dk of None \<Rightarrow> Inl StorageCorruption | Some f \<Rightarrow> read_file f)"

text \<open>
  \<open>__init__\<close> tests that both files exist (line 22). If so it reads the index and then
  the dictionary, and an exception of either read leaves the constructor; nothing
  compares what the two files hold. Otherwise it starts from an empty index and an empty
  dictionary, whatever the one file that may be present holds.
\<close>

definition init_store :: "disk \<Rightarrow> nat \<Rightarrow> error + vector_store" where
  "init_store dk dimn =
     (case (index_file dk, metadata_file dk) of
        (Some fi, Some fm) \<Rightarrow>
          (case load_index dk of
             Inl e \<Rightarrow> Inl e
           | Inr ix \<Rightarrow>
               (case read_file fm of
                  Inl e \<Rightarrow> Inl e
                | Inr md \<Rightarrow> Inr \<lparr>dimension = dimn, index = ix, metadata = md\<rparr>))
      | _ \<Rightarrow> Inr \<lparr>dimension = dimn, index = IndexFlatL2 dimn, metadata = []\<rparr>)"

definition save_index :: "vector_store \<Rightarrow> disk \<Rightarrow> disk" where
  "save_index st dk =
     dk\<lparr>index_file := Some (Readable (index st)),
        metadata_file := Some (Readable (metadata st))\<rparr>"

subsection \<open>add\_document (lines 40 to 67)\<close>

text \<open>
  The length test of line 50 is on the embedding as given; the vector appended to the
  index is the embedding after the cast of line 54.
\<close>

definition add_document ::
  "numerics \<Rightarrow> vector_store \<Rightarrow> disk \<Rightarrow> string \<Rightarrow> embedding \<Rightarrow> metadata_dict option
     \<Rightarrow> (error + int) \<times> vector_store \<times> disk" where
  "add_document nm st dk doc_id emb md =
     (if length emb \<noteq> dimension st then (Inl DimensionMismatch, st, dk)
      else case index_add (index st) (astype_float32 nm emb) of
        Inl e \<Rightarrow> (Inl e, st, dk)
      | Inr ix \<Rightarrow>
          let idx = int (ntotal ix) - 1;
              entry = \<lparr>faiss_id = idx,
                       data_metadata = (case md of None \<Rightarrow> [] | Some m \<Rightarrow> m)\<rparr>;
              st' = st\<lparr>index := ix, metadata := dict_setitem (metadata st) doc_id entry\<rparr>
          in (Inr idx, st', save_index st' dk))"

subsection \<open>search (lines 69 to 112)\<close>

text \<open>
  The inner loop of lines 95 to 99 returns the first entry, in dictionary order, whose
  \<open>faiss_id\<close> is the position looked for.
\<close>

fun find_document :: "metadata_table \<Rightarrow> int \<Rightarrow> (string \<times> metadata_dict) option" where
  "find_document [] idx = None"
| "find_document ((doc_id, data) # rest) idx =
     (if faiss_id data = idx then Some (doc_id, data_metadata data)
      else find_document rest idx)"

text \<open>
  The outer loop of lines 92 to 110, with the counter \<open>i\<close> of \<open>enumerate\<close>. The test
  \<open>if document_id:\<close> is Python truthiness: it fails when no entry was found and also when
  the identifier found is the empty string.
\<close>

fun search_loop :: "metadata_table \<Rightarrow> nat \<Rightarrow> (rat \<times> int) list \<Rightarrow> search_result list" where
  "search_loop md i [] = []"
| "search_loop md i ((distance, idx) # rest) =
     (case find_document md idx of
        None \<Rightarrow> search_loop md (i + 1) rest
      | Some (doc_id, m) \<Rightarrow>
          if doc_id \<noteq> []
          then \<lparr>document_id = doc_id,
                similarity = 1 - min (distance / 100) 1,
                result_metadata = m,
                rank = i + 1\<rparr> # search_loop md (i + 1) rest
          else search_loop md (i + 1) rest)"

text \<open>
  The length test of line 81 is on the query as given; the index is searched with the
  query after the cast of line 85.
\<close>

definition search ::
  "numerics \<Rightarrow> vector_store \<Rightarrow> embedding \<Rightarrow> nat \<Rightarrow> error + search_result list" where
  "search nm st query_embedding limit =
     (if length query_embedding \<noteq> dimension st then Inl DimensionMismatch
      else case index_search nm (index st) (astype_float32 nm query_embedding) limit of
        Inl e \<Rightarrow> Inl e
      | Inr raw \<Rightarrow> Inr (search_loop (metadata st) 0 raw))"

subsection \<open>delete\_document and get\_document\_count (lines 114 to 137)\<close>

definition delete_document :: "vector_store \<Rightarrow> disk \<Rightarrow> string \<Rightarrow> bool \<times> vector_store \<times> disk" where
  "delete_document st dk doc_id =
     (if \<not> dict_contains (metadata st) doc_id then (False, st, dk)
      else let st' = st\<lparr>metadata := dict_delitem (metadata st) doc_id\<rparr>
           in (True, st', save_index st' dk))"

definition get_document_count :: "vector_store \<Rightarrow> nat" where
  "get_document_count st = ntotal (index st)"

subsection \<open>Sequences of calls\<close>

text \<open>
  A caller's history is a list of operations on the pair of the store object and the
  disk. \<open>Restart\<close> stands for a new process constructing the store again from the disk,
  with the same directory and dimension; when the constructor raises there is no new
  store object, and the history goes on with the one at hand.
\<close>

datatype op = Add string embedding "metadata_dict option" | Delete string | Restart

fun apply_op :: "numerics \<Rightarrow> vector_store \<times> disk \<Rightarrow> op \<Rightarrow> vector_store \<times> disk" where
  "apply_op nm (st, dk) (Add doc_id emb md) = snd (add_document nm st dk doc_id emb md)"
| "apply_op nm (st, dk) (Delete doc_id) = snd (delete_document st dk doc_id)"
| "apply_op nm (st, dk) Restart =
     (case init_store dk (dimension st) of Inl e \<Rightarrow> (st, dk) | Inr st' \<Rightarrow> (st', dk))"

definition run_ops :: "numerics \<Rightarrow> vector_store \<times> disk \<Rightarrow> op list \<Rightarrow> vector_store \<times> disk" where
  "run_ops nm s ops = foldl (apply_op nm) s ops"

definition no_files :: disk where
  "no_files = \<lparr>index_file = None, metadata_file = None\<rparr>"

definition fresh_store :: "nat \<Rightarrow> vector_store" where
  "fresh_store dimn = \<lparr>dimension = dimn, index = IndexFlatL2 dimn, metadata = []\<rparr>"

text \<open>
  The live documents of a store are the keys of its dictionary; a position of the index
  that no entry refers to is a tombstone.
\<close>

definition live_count :: "vector_store \<Rightarrow> nat" where
  "live_count st = length (metadata st)"

text \<open>
  Every entry of the dictionary refers to a slot of the index; and the same of a
  snapshot on disk, when both files are present and readable.
\<close>

definition positions_ok :: "index_flat \<Rightarrow> metadata_table \<Rightarrow> bool" where
  "positions_ok ix md = list_all (\<lambda>kv. 0 \<le> faiss_id (snd kv) \<and> faiss_id (snd kv) < int (ntotal ix)) md"

definition snapshot_ok :: "disk \<Rightarrow> bool" where
  "snapshot_ok dk =
     (case (index_file dk, metadata_file dk) of
        (Some (Readable ix), Some (Readable md)) \<Rightarrow> positions_ok ix md
      | _ \<Rightarrow> True)"

text \<open>
  Predicates on histories and states used by the properties below: whether an operation
  adds a given identifier; that an identifier is in neither the dictionary of the store
  nor the dictionary saved on disk; and that both the store and the snapshot on disk
  refer to existing slots only.
\<close>

fun adds_id :: "op \<Rightarrow> string \<Rightarrow> bool" where
  "adds_id (Add i emb md) k = (i = k)"
| "adds_id (Delete i) k = False"
| "adds_id Restart k = False"

definition id_absent :: "string \<Rightarrow> vector_store \<times> disk \<Rightarrow> bool" where
  "id_absent k s =
     (\<not> dict_contains (metadata (fst s)) k \<and>
      (case metadata_file (snd s) of
         Some (Readable md) \<Rightarrow> \<not> dict_contains md k
       | _ \<Rightarrow> True))"

definition state_ok :: "vector_store \<times> disk \<Rightarrow> bool" where
  "state_ok s = (positions_ok (index (fst s)) (metadata (fst s)) \<and> snapshot_ok (snd s))"

section \<open>Properties\<close>

subsection \<open>Dictionary and lookup lemmas\<close>

lemma keys_dict_setitem: "fst ` set (dict_setitem dct k v) = insert k (fst ` set dct)"
  by (induction dct k v rule: dict_setitem.induct) (auto simp: image_iff)

lemma map_fst_dict_setitem:
  "dict_contains dct k \<Longrightarrow> map fst (dict_setitem dct k v) = map fst dct"
  by (induction dct k v rule: dict_setitem.induct) (auto simp: dict_contains_def image_iff)

lemma map_of_dict_setitem: "map_of (dict_setitem dct k v) k = Some v"
  by (induction dct k v rule: dict_setitem.induct) auto

lemma map_of_dict_setitem_other:
  "k' \<noteq> k \<Longrightarrow> map_of (dict_setitem dct k v) k' = map_of dct k'"
  by (induction dct k v rule: dict_setitem.induct) auto

lemma keys_dict_delitem: "fst ` set (dict_delitem dct k) = fst ` set dct - {k}"
  by (auto simp: dict_delitem_def)

lemma find_document_key:
  "find_document md idx = Some (k, m) \<Longrightarrow> k \<in> fst ` set md"
  by (induction md idx rule: find_document.induct) (auto split: if_splits)

lemma search_loop_ids:
  "r \<in> set (search_loop md i raw) \<Longrightarrow> document_id r \<in> fst ` set md"
  by (induction md i raw rule: search_loop.induct)
     (auto split: option.splits if_splits dest: find_document_key)

lemma search_ids:
  "search nm st q limit = Inr rs \<Longrightarrow> r \<in> set rs \<Longrightarrow> document_id r \<in> fst ` set (metadata st)"
  by (auto simp: search_def split: if_splits sum.splits dest: search_loop_ids)

lemma length_astype_float32 [simp]: "length (astype_float32 nm v) = length v"
  by (simp add: astype_float32_def)

lemma astype_float32_exact [simp]: "astype_float32 exact_numerics v = v"
  by (simp add: astype_float32_def exact_numerics_def)

lemma l2_distance_exact [simp]: "l2_distance exact_numerics = l2sqr"
  by (simp add: exact_numerics_def)

subsection \<open>The document count\<close>

text \<open>
  Claim C1, as the code has it: \<open>get_document_count\<close> returns the raw number of vectors of
  the index, tombstoned positions included, and \<open>delete_document\<close> leaves that number as
  it was, whether it returns true or false.
\<close>

theorem count_is_raw_vector_count:
  "get_document_count st = length (idx_vectors (index st)) \<and>
   get_document_count (fst (snd (delete_document st dk doc_id))) = get_document_count st"
  by (simp add: get_document_count_def ntotal_def delete_document_def Let_def)

theorem count_is_raw_vector_count_witness:
  "get_document_count
      (fst (run_ops exact_numerics (fresh_store 2, no_files) [Add ''a'' [1, 0] None])) = 1 \<and>
   get_document_count (fst (snd (delete_document
      (fst (run_ops exact_numerics (fresh_store 2, no_files) [Add ''a'' [1, 0] None]))
      (snd (run_ops exact_numerics (fresh_store 2, no_files) [Add ''a'' [1, 0] None]))
      ''a''))) = 1"
proof -
  have v: "get_document_count
      (fst (run_ops exact_numerics (fresh_store 2, no_files) [Add ''a'' [1, 0] None])) = 1"
    by code_simp
  show ?thesis
    using v count_is_raw_vector_count
      [where st = "fst (run_ops exact_numerics (fresh_store 2, no_files) [Add ''a'' [1, 0] None])"
         and dk = "snd (run_ops exact_numerics (fresh_store 2, no_files) [Add ''a'' [1, 0] None])"
         and doc_id = "''a''"]
    by simp
qed

text \<open>
  Claim C1 as stated fails: on a two-dimensional store holding the single document
  \<open>a\<close>, deleting \<open>a\<close> returns true, and the count stays 1; it is neither one less than
  before nor the number of live documents, which is 0.
\<close>

theorem count_after_delete_counterexample:
  "fst (delete_document
      (fst (run_ops exact_numerics (fresh_store 2, no_files) [Add ''a'' [1, 0] None]))
      (snd (run_ops exact_numerics (fresh_store 2, no_files) [Add ''a'' [1, 0] None]))
      ''a'') = True \<and>
   get_document_count (fst (snd (delete_document
      (fst (run_ops exact_numerics (fresh_store 2, no_files) [Add ''a'' [1, 0] None]))
      (snd (run_ops exact_numerics (fresh_store 2, no_files) [Add ''a'' [1, 0] None]))
      ''a'')))
     \<noteq> get_document_count
          (fst (run_ops exact_numerics (fresh_store 2, no_files) [Add ''a'' [1, 0] None])) - 1 \<and>
   get_document_count (fst (snd (delete_document
      (fst (run_ops exact_numerics (fresh_store 2, no_files) [Add ''a'' [1, 0] None]))
      (snd (run_ops exact_numerics (fresh_store 2, no_files) [Add ''a'' [1, 0] None]))
      ''a'')))
     \<noteq> live_count (fst (snd (delete_document
      (fst (run_ops exact_numerics (fresh_store 2, no_files) [Add ''a'' [1, 0] None]))
      (snd (run_ops exact_numerics (fresh_store 2, no_files) [Add ''a'' [1, 0] None]))
      ''a'')))"
  by code_simp

subsection \<open>Loading\<close>

text \<open>
  Claim C2, as the code has it. When either file is missing, the constructor returns
  the fresh empty store of the configured dimension and ignores the file that is
  present. When both files are present and readable, it returns their contents as they
  are, without comparing index and dictionary. It fails, with the exception of the
  deserialiser, when both files are present and one of them is unreadable; these three
  cases are all there are, so it fails in no other.
\<close>

theorem init_store_cases:
  "(index_file dk = None \<or> metadata_file dk = None \<longrightarrow>
      init_store dk dimn = Inr (fresh_store dimn)) \<and>
   (index_file dk = Some (Readable ix) \<and> metadata_file dk = Some (Readable md) \<longrightarrow>
      init_store dk dimn = Inr \<lparr>dimension = dimn, index = ix, metadata = md\<rparr>) \<and>
   (index_file dk \<noteq> None \<and> metadata_file dk \<noteq> None \<and>
    (index_file dk = Some Unreadable \<or> metadata_file dk = Some Unreadable) \<longrightarrow>
      init_store dk dimn = Inl StorageCorruption) \<and>
   (init_store dk dimn = Inl e \<longrightarrow>
      e = StorageCorruption \<and> index_file dk \<noteq> None \<and> metadata_file dk \<noteq> None \<and>
      (index_file dk = Some Unreadable \<or> metadata_file dk = Some Unreadable))"
  by (auto simp: init_store_def load_index_def read_file_def fresh_store_def
      split: option.splits stored_file.splits)

theorem init_store_cases_witness:
  "(index_file \<lparr>index_file = Some (Readable \<lparr>idx_dim = 2, idx_vectors = [[1, 0]]\<rparr>),
                 metadata_file = None\<rparr> = None \<or>
    metadata_file \<lparr>index_file = Some (Readable \<lparr>idx_dim = 2, idx_vectors = [[1, 0]]\<rparr>),
                    metadata_file = None\<rparr> = None) \<and>
   init_store \<lparr>index_file = Some (Readable \<lparr>idx_dim = 2, idx_vectors = [[1, 0]]\<rparr>),
               metadata_file = None\<rparr> 2 = Inr (fresh_store 2)"
  using init_store_cases
    [where dk = "\<lparr>index_file = Some (Readable \<lparr>idx_dim = 2, idx_vectors = [[1, 0]]\<rparr>),
                  metadata_file = None\<rparr>" and dimn = 2]
  by simp

text \<open>
  Claim C2 as stated fails. With only the index file present, the constructor returns a
  fresh empty store and drops the stored vector; with an empty index beside a dictionary
  that refers to position 0, both readable, it returns that inconsistent pair. Neither
  is an error.
\<close>

theorem init_store_counterexample:
  "init_store \<lparr>index_file = Some (Readable \<lparr>idx_dim = 2, idx_vectors = [[1, 0]]\<rparr>),
               metadata_file = None\<rparr> 2
     = Inr \<lparr>dimension = 2, index = \<lparr>idx_dim = 2, idx_vectors = []\<rparr>, metadata = []\<rparr> \<and>
   init_store \<lparr>index_file = Some (Readable \<lparr>idx_dim = 2, idx_vectors = []\<rparr>),
               metadata_file = Some (Readable [(''a'', \<lparr>faiss_id = 0, data_metadata = []\<rparr>)])\<rparr> 2
     = Inr \<lparr>dimension = 2, index = \<lparr>idx_dim = 2, idx_vectors = []\<rparr>,
            metadata = [(''a'', \<lparr>faiss_id = 0, data_metadata = []\<rparr>)]\<rparr>"
  by (simp add: init_store_def load_index_def read_file_def IndexFlatL2_def)

subsection \<open>Validation before mutation\<close>

text \<open>
  Claim C9: an embedding whose length differs from the configured dimension makes
  \<open>add_document\<close> fail with the dimension mismatch, and the call leaves the store object
  and the disk exactly as they were; in particular the count is the same.
\<close>

theorem add_wrong_dimension:
  "length emb \<noteq> dimension st \<Longrightarrow>
     add_document nm st dk doc_id emb md = (Inl DimensionMismatch, st, dk) \<and>
     get_document_count (fst (snd (add_document nm st dk doc_id emb md))) = get_document_count st"
  by (simp add: add_document_def)

theorem add_wrong_dimension_witness:
  "length [1, 0, 0 :: rat] \<noteq> dimension (fresh_store 2) \<and>
   add_document exact_numerics (fresh_store 2) no_files ''doc1'' [1, 0, 0] None
     = (Inl DimensionMismatch, fresh_store 2, no_files)"
  using add_wrong_dimension
    [where emb = "[1, 0, 0]" and st = "fresh_store 2" and nm = exact_numerics
       and dk = no_files and doc_id = "''doc1''" and md = None]
  by (simp add: fresh_store_def)

subsection \<open>Adding under a present identifier\<close>

text \<open>
  Claim C3, as the code has it: when the identifier is already in the dictionary and the
  embedding has the configured dimension (which is also the dimension of the index),
  \<open>add_document\<close> succeeds and returns the new position, which is the number of vectors
  the index held. The entry of the identifier is overwritten with the new position and
  the new metadata; the entry of every other identifier and the order of the keys are as
  before; and the index holds the vectors it held, followed by the embedding after the
  cast.
\<close>

theorem add_existing_overwrites:
  assumes "length emb = dimension st" and "idx_dim (index st) = dimension st"
    and "dict_contains (metadata st) doc_id"
  shows "fst (add_document nm st dk doc_id emb md) = Inr (int (ntotal (index st))) \<and>
    map_of (metadata (fst (snd (add_document nm st dk doc_id emb md)))) doc_id
      = Some \<lparr>faiss_id = int (ntotal (index st)),
               data_metadata = (case md of None \<Rightarrow> [] | Some m \<Rightarrow> m)\<rparr> \<and>
    (other \<noteq> doc_id \<longrightarrow>
       map_of (metadata (fst (snd (add_document nm st dk doc_id emb md)))) other
         = map_of (metadata st) other) \<and>
    map fst (metadata (fst (snd (add_document nm st dk doc_id emb md)))) = map fst (metadata st) \<and>
    idx_vectors (index (fst (snd (add_document nm st dk doc_id emb md))))
      = idx_vectors (index st) @ [astype_float32 nm emb]"
  using assms
  by (simp add: add_document_def index_add_def ntotal_def Let_def
      map_of_dict_setitem map_fst_dict_setitem map_of_dict_setitem_other)

theorem add_existing_overwrites_witness:
  "length [0, 1 :: rat] = dimension \<lparr>dimension = 2, index = \<lparr>idx_dim = 2, idx_vectors = [[1, 0]]\<rparr>,
         metadata = [(''a'', \<lparr>faiss_id = 0, data_metadata = []\<rparr>)]\<rparr> \<and>
   dict_contains [(''a'', \<lparr>faiss_id = 0, data_metadata = []\<rparr>)] ''a'' \<and>
   fst (add_document exact_numerics
         \<lparr>dimension = 2, index = \<lparr>idx_dim = 2, idx_vectors = [[1, 0]]\<rparr>,
           metadata = [(''a'', \<lparr>faiss_id = 0, data_metadata = []\<rparr>)]\<rparr> no_files ''a'' [0, 1] None)
     = Inr 1"
  using add_existing_overwrites
    [where emb = "[0, 1]" and nm = exact_numerics and doc_id = "''a''" and dk = no_files
       and md = None and other = "''a''"
       and st = "\<lparr>dimension = 2, index = \<lparr>idx_dim = 2, idx_vectors = [[1, 0]]\<rparr>,
         metadata = [(''a'', \<lparr>faiss_id = 0, data_metadata = []\<rparr>)]\<rparr>"]
  by (simp add: dict_contains_def ntotal_def)

text \<open>
  Claim C3 as stated fails: adding \<open>a\<close> a second time returns position 1 rather than an
  error, and the entry of \<open>a\<close>, which held position 0 and the metadata \<open>k = v\<close>, now
  holds position 1 and empty metadata.
\<close>

theorem add_existing_counterexample:
  "fst (add_document exact_numerics
      (fst (run_ops exact_numerics (fresh_store 2, no_files)
              [Add ''a'' [1, 0] (Some [(''k'', ''v'')])]))
      (snd (run_ops exact_numerics (fresh_store 2, no_files)
              [Add ''a'' [1, 0] (Some [(''k'', ''v'')])]))
      ''a'' [0, 1] None) = Inr 1 \<and>
   metadata (fst (run_ops exact_numerics (fresh_store 2, no_files)
              [Add ''a'' [1, 0] (Some [(''k'', ''v'')])]))
     = [(''a'', \<lparr>faiss_id = 0, data_metadata = [(''k'', ''v'')]\<rparr>)] \<and>
   metadata (fst (snd (add_document exact_numerics
      (fst (run_ops exact_numerics (fresh_store 2, no_files)
              [Add ''a'' [1, 0] (Some [(''k'', ''v'')])]))
      (snd (run_ops exact_numerics (fresh_store 2, no_files)
              [Add ''a'' [1, 0] (Some [(''k'', ''v'')])]))
      ''a'' [0, 1] None)))
     = [(''a'', \<lparr>faiss_id = 1, data_metadata = []\<rparr>)]"
  by code_simp

subsection \<open>The dimension of a store is fixed\<close>

lemma dimension_add_document [simp]:
  "dimension (fst (snd (add_document nm st dk doc_id emb md))) = dimension st"
  by (simp add: add_document_def Let_def split: sum.splits)

lemma dimension_delete_document [simp]:
  "dimension (fst (snd (delete_document st dk doc_id))) = dimension st"
  by (simp add: delete_document_def Let_def)

lemma dimension_init_store: "init_store dk dimn = Inr st \<Longrightarrow> dimension st = dimn"
  by (auto simp: init_store_def split: option.splits sum.splits)

lemma dimension_apply_op: "dimension (fst (apply_op nm s x)) = dimension (fst s)"
proof (cases s; cases x)
  fix st dk
  assume s: "s = (st, dk)" and x: "x = Restart"
  show ?thesis
  proof (cases "init_store dk (dimension st)")
    case (Inl e)
    then show ?thesis using s x by simp
  next
    case (Inr st')
    then show ?thesis using s x dimension_init_store [OF Inr] by simp
  qed
qed simp_all

lemma dimension_run_ops: "dimension (fst (run_ops nm s ops)) = dimension (fst s)"
  unfolding run_ops_def
  by (induction ops arbitrary: s) (simp_all add: dimension_apply_op)

subsection \<open>Saving and loading\<close>

lemma init_after_save:
  "init_store (save_index st dk) (dimension st) = Inr st"
  by (simp add: init_store_def save_index_def load_index_def read_file_def)

text \<open>
  Claim C7: after any sequence of operations from any starting store, saving the store
  and constructing a new one from the disk with the same dimension succeeds, and the new
  store answers every search and the count exactly as the saved one does.
\<close>

theorem save_load_roundtrip:
  assumes "run_ops nm (st0, dk0) ops = (st, dk)"
  shows "\<exists>st'. init_store (save_index st dk) (dimension st0) = Inr st' \<and>
     search nm st' q limit = search nm st q limit \<and>
     get_document_count st' = get_document_count st"
proof -
  have "dimension st = dimension st0"
    using dimension_run_ops [of nm "(st0, dk0)" ops] assms by simp
  then have "init_store (save_index st dk) (dimension st0) = Inr st"
    using init_after_save [of st dk] by simp
  then show ?thesis by simp
qed

theorem save_load_roundtrip_witness:
  "run_ops exact_numerics (fresh_store 2, no_files)
      [Add ''a'' [1, 0] None, Add ''b'' [0, 1] None, Delete ''a'']
     = (\<lparr>dimension = 2, index = \<lparr>idx_dim = 2, idx_vectors = [[1, 0], [0, 1]]\<rparr>,
          metadata = [(''b'', \<lparr>faiss_id = 1, data_metadata = []\<rparr>)]\<rparr>,
        \<lparr>index_file = Some (Readable \<lparr>idx_dim = 2, idx_vectors = [[1, 0], [0, 1]]\<rparr>),
          metadata_file = Some (Readable [(''b'', \<lparr>faiss_id = 1, data_metadata = []\<rparr>)])\<rparr>) \<and>
   (\<exists>st'. init_store (save_index
        \<lparr>dimension = 2, index = \<lparr>idx_dim = 2, idx_vectors = [[1, 0], [0, 1]]\<rparr>,
          metadata = [(''b'', \<lparr>faiss_id = 1, data_metadata = []\<rparr>)]\<rparr>
        \<lparr>index_file = Some (Readable \<lparr>idx_dim = 2, idx_vectors = [[1, 0], [0, 1]]\<rparr>),
          metadata_file = Some (Readable [(''b'', \<lparr>faiss_id = 1, data_metadata = []\<rparr>)])\<rparr>)
        (dimension (fresh_store 2)) = Inr st' \<and>
      search exact_numerics st' [1, 0] 2 = search exact_numerics
        \<lparr>dimension = 2, index = \<lparr>idx_dim = 2, idx_vectors = [[1, 0], [0, 1]]\<rparr>,
          metadata = [(''b'', \<lparr>faiss_id = 1, data_metadata = []\<rparr>)]\<rparr> [1, 0] 2 \<and>
      get_document_count st' = get_document_count
        \<lparr>dimension = 2, index = \<lparr>idx_dim = 2, idx_vectors = [[1, 0], [0, 1]]\<rparr>,
          metadata = [(''b'', \<lparr>faiss_id = 1, data_metadata = []\<rparr>)]\<rparr>)"
proof -
  have h: "run_ops exact_numerics (fresh_store 2, no_files)
      [Add ''a'' [1, 0] None, Add ''b'' [0, 1] None, Delete ''a'']
     = (\<lparr>dimension = 2, index = \<lparr>idx_dim = 2, idx_vectors = [[1, 0], [0, 1]]\<rparr>,
          metadata = [(''b'', \<lparr>faiss_id = 1, data_metadata = []\<rparr>)]\<rparr>,
        \<lparr>index_file = Some (Readable \<lparr>idx_dim = 2, idx_vectors = [[1, 0], [0, 1]]\<rparr>),
          metadata_file = Some (Readable [(''b'', \<lparr>faiss_id = 1, data_metadata = []\<rparr>)])\<rparr>)"
    by code_simp
  show ?thesis
    using h save_load_roundtrip [OF h, of "[1, 0]" 2] by blast
qed

subsection \<open>A deleted document is not returned\<close>

lemma snd_add_document:
  "snd (add_document nm st dk i emb md) = (st, dk) \<or>
   (\<exists>st'. snd (add_document nm st dk i emb md) = (st', save_index st' dk) \<and>
      idx_vectors (index st') = idx_vectors (index st) @ [astype_float32 nm emb] \<and>
      metadata st' = dict_setitem (metadata st) i
         \<lparr>faiss_id = int (length (idx_vectors (index st))),
          data_metadata = (case md of None \<Rightarrow> [] | Some m \<Rightarrow> m)\<rparr>)"
  by (simp add: add_document_def index_add_def Let_def ntotal_def)

lemma snd_delete_document:
  "snd (delete_document st dk i) =
     (if dict_contains (metadata st) i
      then (st\<lparr>metadata := dict_delitem (metadata st) i\<rparr>,
            save_index (st\<lparr>metadata := dict_delitem (metadata st) i\<rparr>) dk)
      else (st, dk))"
  by (simp add: delete_document_def Let_def)

lemma init_store_results:
  assumes "init_store dk dimn = Inr st"
  shows "st = fresh_store dimn \<or>
     (\<exists>ix md. index_file dk = Some (Readable ix) \<and> metadata_file dk = Some (Readable md) \<and>
        st = \<lparr>dimension = dimn, index = ix, metadata = md\<rparr>)"
  using assms
  by (auto simp: init_store_def load_index_def read_file_def fresh_store_def
      split: option.splits stored_file.splits)

lemma id_absent_saved:
  "\<not> dict_contains (metadata st) k \<Longrightarrow> id_absent k (st, save_index st dk)"
  by (simp add: id_absent_def save_index_def)

lemma id_absent_apply_op:
  assumes "\<not> adds_id x k" and "id_absent k s"
  shows "id_absent k (apply_op nm s x)"
proof (cases s)
  case (Pair st dk)
  have st: "\<not> dict_contains (metadata st) k"
    using assms(2) Pair by (simp add: id_absent_def)
  show ?thesis
  proof (cases x)
    case (Add i emb md)
    then have ik: "i \<noteq> k" using assms(1) by simp
    from snd_add_document [of nm st dk i emb md]
    show ?thesis
    proof
      assume "snd (add_document nm st dk i emb md) = (st, dk)"
      then show ?thesis using assms(2) Pair Add by simp
    next
      assume "\<exists>st'. snd (add_document nm st dk i emb md) = (st', save_index st' dk) \<and>
        idx_vectors (index st') = idx_vectors (index st) @ [astype_float32 nm emb] \<and>
        metadata st' = dict_setitem (metadata st) i
           \<lparr>faiss_id = int (length (idx_vectors (index st))),
            data_metadata = (case md of None \<Rightarrow> [] | Some m \<Rightarrow> m)\<rparr>"
      then obtain st' where st': "snd (add_document nm st dk i emb md) = (st', save_index st' dk)"
        "metadata st' = dict_setitem (metadata st) i
           \<lparr>faiss_id = int (length (idx_vectors (index st))),
            data_metadata = (case md of None \<Rightarrow> [] | Some m \<Rightarrow> m)\<rparr>"
        by blast
      have "\<not> dict_contains (metadata st') k"
        using st ik st'(2) by (simp add: dict_contains_def keys_dict_setitem)
      then show ?thesis
        using Pair Add st'(1) by (simp add: id_absent_saved)
    qed
  next
    case (Delete i)
    show ?thesis
    proof (cases "dict_contains (metadata st) i")
      case False
      then show ?thesis using assms(2) Pair Delete by (simp add: snd_delete_document)
    next
      case True
      have "\<not> dict_contains (dict_delitem (metadata st) i) k"
        using st by (simp add: dict_contains_def keys_dict_delitem)
      then have "id_absent k (st\<lparr>metadata := dict_delitem (metadata st) i\<rparr>,
          save_index (st\<lparr>metadata := dict_delitem (metadata st) i\<rparr>) dk)"
        by (simp add: id_absent_saved)
      then show ?thesis using True Pair Delete by (simp add: snd_delete_document)
    qed
  next
    case Restart
    show ?thesis
    proof (cases "init_store dk (dimension st)")
      case (Inl e)
      then show ?thesis using assms(2) Pair Restart by simp
    next
      case (Inr st')
      have disk: "case metadata_file dk of
          Some (Readable md) \<Rightarrow> \<not> dict_contains md k | _ \<Rightarrow> True"
        using assms(2) Pair by (simp add: id_absent_def)
      from init_store_results [OF Inr]
      have "\<not> dict_contains (metadata st') k"
      proof
        assume "st' = fresh_store (dimension st)"
        then show ?thesis by (simp add: fresh_store_def dict_contains_def)
      next
        assume "\<exists>ix md. index_file dk = Some (Readable ix) \<and>
          metadata_file dk = Some (Readable md) \<and>
          st' = \<lparr>dimension = dimension st, index = ix, metadata = md\<rparr>"
        then obtain ix md where "metadata_file dk = Some (Readable md)" "metadata st' = md"
          by auto
        then show ?thesis using disk by simp
      qed
      then have "id_absent k (st', dk)"
        using disk by (simp add: id_absent_def)
      then show ?thesis using Inr Pair Restart by simp
    qed
  qed
qed

lemma id_absent_run_ops:
  "list_all (\<lambda>x. \<not> adds_id x k) ops \<Longrightarrow> id_absent k s \<Longrightarrow> id_absent k (run_ops nm s ops)"
  unfolding run_ops_def
  by (induction ops arbitrary: s) (simp_all add: id_absent_apply_op)

lemma id_absent_after_delete:
  assumes "fst (delete_document st dk k)"
  shows "id_absent k (snd (delete_document st dk k))"
proof -
  have c: "dict_contains (metadata st) k"
    using assms by (simp add: delete_document_def split: if_splits)
  have "\<not> dict_contains (dict_delitem (metadata st) k) k"
    by (simp add: dict_contains_def keys_dict_delitem)
  then have "id_absent k (st\<lparr>metadata := dict_delitem (metadata st) k\<rparr>,
      save_index (st\<lparr>metadata := dict_delitem (metadata st) k\<rparr>) dk)"
    by (simp add: id_absent_saved)
  then show ?thesis using c by (simp add: snd_delete_document)
qed

text \<open>
  Claim C5: once \<open>delete_document\<close> has returned true for an identifier, and as long as
  no later operation adds that identifier again, no search returns it, for any query and
  any limit, also across restarts.
\<close>

theorem deleted_never_returned:
  assumes "fst (delete_document st dk doc_id) = True"
    and "list_all (\<lambda>x. \<not> adds_id x doc_id) ops"
    and "search nm (fst (run_ops nm (snd (delete_document st dk doc_id)) ops)) q limit = Inr rs"
  shows "doc_id \<notin> document_id ` set rs"
proof
  assume "doc_id \<in> document_id ` set rs"
  then obtain r where r: "r \<in> set rs" "document_id r = doc_id" by auto
  have "id_absent doc_id (run_ops nm (snd (delete_document st dk doc_id)) ops)"
    using assms(1,2) by (simp add: id_absent_run_ops id_absent_after_delete)
  moreover have "doc_id \<in> fst ` set (metadata (fst (run_ops nm (snd (delete_document st dk doc_id)) ops)))"
    using search_ids [OF assms(3) r(1)] r(2) by simp
  ultimately show False by (simp add: id_absent_def dict_contains_def)
qed

theorem deleted_never_returned_witness:
  "fst (delete_document
      (fst (run_ops exact_numerics (fresh_store 2, no_files)
              [Add ''a'' [1, 0] None, Add ''b'' [0, 1] None]))
      (snd (run_ops exact_numerics (fresh_store 2, no_files)
              [Add ''a'' [1, 0] None, Add ''b'' [0, 1] None]))
      ''a'') = True \<and>
   list_all (\<lambda>x. \<not> adds_id x ''a'') [Add ''c'' [1, 1] None, Restart] \<and>
   search exact_numerics (fst (run_ops exact_numerics (snd (delete_document
      (fst (run_ops exact_numerics (fresh_store 2, no_files)
              [Add ''a'' [1, 0] None, Add ''b'' [0, 1] None]))
      (snd (run_ops exact_numerics (fresh_store 2, no_files)
              [Add ''a'' [1, 0] None, Add ''b'' [0, 1] None]))
      ''a'')) [Add ''c'' [1, 1] None, Restart])) [1, 0] 3
     = Inr [\<lparr>document_id = ''c'', similarity = 99 / 100, result_metadata = [], rank = 2\<rparr>,
            \<lparr>document_id = ''b'', similarity = 49 / 50, result_metadata = [], rank = 3\<rparr>] \<and>
   ''a'' \<notin> document_id `
      set [\<lparr>document_id = ''c'', similarity = 99 / 100, result_metadata = [], rank = 2\<rparr>,
           \<lparr>document_id = ''b'', similarity = 49 / 50, result_metadata = [], rank = 3\<rparr>]"
proof -
  have h1: "fst (delete_document
      (fst (run_ops exact_numerics (fresh_store 2, no_files)
              [Add ''a'' [1, 0] None, Add ''b'' [0, 1] None]))
      (snd (run_ops exact_numerics (fresh_store 2, no_files)
              [Add ''a'' [1, 0] None, Add ''b'' [0, 1] None]))
      ''a'') = True"
    by code_simp
  have h2: "list_all (\<lambda>x. \<not> adds_id x ''a'') [Add ''c'' [1, 1] None, Restart]"
    by simp
  have h3: "search exact_numerics (fst (run_ops exact_numerics (snd (delete_document
      (fst (run_ops exact_numerics (fresh_store 2, no_files)
              [Add ''a'' [1, 0] None, Add ''b'' [0, 1] None]))
      (snd (run_ops exact_numerics (fresh_store 2, no_files)
              [Add ''a'' [1, 0] None, Add ''b'' [0, 1] None]))
      ''a'')) [Add ''c'' [1, 1] None, Restart])) [1, 0] 3
     = Inr [\<lparr>document_id = ''c'', similarity = 99 / 100, result_metadata = [], rank = 2\<rparr>,
            \<lparr>document_id = ''b'', similarity = 49 / 50, result_metadata = [], rank = 3\<rparr>]"
    by code_simp
  show ?thesis
    using h1 h2 h3 deleted_never_returned [OF h1 h2 h3] by blast
qed

subsection \<open>Every live document refers to a slot of the index\<close>

lemma set_dict_setitem_subset: "set (dict_setitem dct k v) \<subseteq> insert (k, v) (set dct)"
  by (induction dct k v rule: dict_setitem.induct) auto

lemma positions_ok_add:
  assumes "positions_ok ix md" and "idx_vectors ix' = idx_vectors ix @ [emb]"
  shows "positions_ok ix' (dict_setitem md i \<lparr>faiss_id = int (length (idx_vectors ix)),
            data_metadata = m\<rparr>)"
proof -
  have "0 \<le> faiss_id (snd kv) \<and> faiss_id (snd kv) < int (ntotal ix')"
    if "kv \<in> set (dict_setitem md i \<lparr>faiss_id = int (length (idx_vectors ix)), data_metadata = m\<rparr>)"
    for kv
  proof -
    from that set_dict_setitem_subset
    have "kv = (i, \<lparr>faiss_id = int (length (idx_vectors ix)), data_metadata = m\<rparr>) \<or> kv \<in> set md"
      by fastforce
    then show ?thesis
      using assms by (auto simp: positions_ok_def list_all_iff ntotal_def)
  qed
  then show ?thesis by (simp add: positions_ok_def list_all_iff)
qed

lemma state_ok_saved:
  "positions_ok (index st) (metadata st) \<Longrightarrow> state_ok (st, save_index st dk)"
  by (simp add: state_ok_def snapshot_ok_def save_index_def)

lemma state_ok_apply_op:
  assumes "state_ok s"
  shows "state_ok (apply_op nm s x)"
proof (cases s)
  case (Pair st dk)
  have st: "positions_ok (index st) (metadata st)" and dk: "snapshot_ok dk"
    using assms Pair by (simp_all add: state_ok_def)
  show ?thesis
  proof (cases x)
    case (Add i emb md)
    from snd_add_document [of nm st dk i emb md]
    show ?thesis
    proof
      assume "snd (add_document nm st dk i emb md) = (st, dk)"
      then show ?thesis using assms Pair Add by simp
    next
      assume "\<exists>st'. snd (add_document nm st dk i emb md) = (st', save_index st' dk) \<and>
        idx_vectors (index st') = idx_vectors (index st) @ [astype_float32 nm emb] \<and>
        metadata st' = dict_setitem (metadata st) i
           \<lparr>faiss_id = int (length (idx_vectors (index st))),
            data_metadata = (case md of None \<Rightarrow> [] | Some m \<Rightarrow> m)\<rparr>"
      then obtain st' where st': "snd (add_document nm st dk i emb md) = (st', save_index st' dk)"
        "idx_vectors (index st') = idx_vectors (index st) @ [astype_float32 nm emb]"
        "metadata st' = dict_setitem (metadata st) i
           \<lparr>faiss_id = int (length (idx_vectors (index st))),
            data_metadata = (case md of None \<Rightarrow> [] | Some m \<Rightarrow> m)\<rparr>"
        by blast
      have "positions_ok (index st') (metadata st')"
        using positions_ok_add [OF st st'(2), of i] st'(3) by simp
      then show ?thesis
        using Pair Add st'(1) by (simp add: state_ok_saved)
    qed
  next
    case (Delete i)
    show ?thesis
    proof (cases "dict_contains (metadata st) i")
      case False
      then show ?thesis using assms Pair Delete by (simp add: snd_delete_document)
    next
      case True
      have "positions_ok (index st) (dict_delitem (metadata st) i)"
        using st by (auto simp: positions_ok_def dict_delitem_def list_all_iff)
      then have "state_ok (st\<lparr>metadata := dict_delitem (metadata st) i\<rparr>,
          save_index (st\<lparr>metadata := dict_delitem (metadata st) i\<rparr>) dk)"
        by (simp add: state_ok_saved)
      then show ?thesis using True Pair Delete by (simp add: snd_delete_document)
    qed
  next
    case Restart
    show ?thesis
    proof (cases "init_store dk (dimension st)")
      case (Inl e)
      then show ?thesis using assms Pair Restart by simp
    next
      case (Inr st')
      from init_store_results [OF Inr]
      have "positions_ok (index st') (metadata st')"
      proof
        assume "st' = fresh_store (dimension st)"
        then show ?thesis by (simp add: fresh_store_def positions_ok_def)
      next
        assume "\<exists>ix md. index_file dk = Some (Readable ix) \<and>
          metadata_file dk = Some (Readable md) \<and>
          st' = \<lparr>dimension = dimension st, index = ix, metadata = md\<rparr>"
        then show ?thesis using dk by (auto simp: snapshot_ok_def)
      qed
      then have "state_ok (st', dk)"
        using dk by (simp add: state_ok_def)
      then show ?thesis using Inr Pair Restart by simp
    qed
  qed
qed

lemma state_ok_run_ops: "state_ok s \<Longrightarrow> state_ok (run_ops nm s ops)"
  unfolding run_ops_def
  by (induction ops arbitrary: s) (simp_all add: state_ok_apply_op)

lemma state_ok_init:
  assumes "snapshot_ok dk" and "init_store dk dimn = Inr st"
  shows "state_ok (st, dk)"
proof -
  from init_store_results [OF assms(2)]
  have "positions_ok (index st) (metadata st)"
  proof
    assume "st = fresh_store dimn"
    then show ?thesis by (simp add: fresh_store_def positions_ok_def)
  next
    assume "\<exists>ix md. index_file dk = Some (Readable ix) \<and>
      metadata_file dk = Some (Readable md) \<and>
      st = \<lparr>dimension = dimn, index = ix, metadata = md\<rparr>"
    then show ?thesis using assms(1) by (auto simp: snapshot_ok_def)
  qed
  then show ?thesis using assms(1) by (simp add: state_ok_def)
qed

text \<open>
  Claim C10, as the code has it: start from the store constructed over a disk that
  holds no snapshot, or a snapshot whose entries refer to slots of its index (as every
  snapshot written by the store does). After any sequence of additions, deletions and
  restarts, every entry of the dictionary has a \<open>faiss_id\<close> that is at least 0 and less
  than the number of vectors of the index.
\<close>

theorem live_documents_resolve:
  assumes "snapshot_ok dk0" and "init_store dk0 dimn = Inr st0"
    and "run_ops nm (st0, dk0) ops = (st, dk)"
    and "(doc_id, data) \<in> set (metadata st)"
  shows "0 \<le> faiss_id data \<and> faiss_id data < int (ntotal (index st))"
proof -
  have "state_ok (run_ops nm (st0, dk0) ops)"
    using assms(1,2) by (simp add: state_ok_run_ops state_ok_init)
  then have "positions_ok (index st) (metadata st)"
    using assms(3) by (simp add: state_ok_def)
  then show ?thesis
    using assms(4) by (auto simp: positions_ok_def list_all_iff)
qed

theorem live_documents_resolve_witness:
  "snapshot_ok no_files \<and> init_store no_files 2 = Inr (fresh_store 2) \<and>
   run_ops exact_numerics (fresh_store 2, no_files)
      [Add ''a'' [1, 0] None, Restart, Add ''b'' [0, 1] None, Delete ''a'']
     = (\<lparr>dimension = 2, index = \<lparr>idx_dim = 2, idx_vectors = [[1, 0], [0, 1]]\<rparr>,
          metadata = [(''b'', \<lparr>faiss_id = 1, data_metadata = []\<rparr>)]\<rparr>,
        \<lparr>index_file = Some (Readable \<lparr>idx_dim = 2, idx_vectors = [[1, 0], [0, 1]]\<rparr>),
          metadata_file = Some (Readable [(''b'', \<lparr>faiss_id = 1, data_metadata = []\<rparr>)])\<rparr>) \<and>
   0 \<le> faiss_id \<lparr>faiss_id = 1, data_metadata = []\<rparr> \<and>
   faiss_id \<lparr>faiss_id = 1, data_metadata = []\<rparr>
     < int (ntotal \<lparr>idx_dim = 2, idx_vectors = [[1, 0], [0, 1]]\<rparr>)"
proof -
  have h1: "snapshot_ok no_files"
    by (simp add: snapshot_ok_def no_files_def)
  have h2: "init_store no_files 2 = Inr (fresh_store 2)"
    by (simp add: init_store_def no_files_def fresh_store_def)
  have h3: "run_ops exact_numerics (fresh_store 2, no_files)
      [Add ''a'' [1, 0] None, Restart, Add ''b'' [0, 1] None, Delete ''a'']
     = (\<lparr>dimension = 2, index = \<lparr>idx_dim = 2, idx_vectors = [[1, 0], [0, 1]]\<rparr>,
          metadata = [(''b'', \<lparr>faiss_id = 1, data_metadata = []\<rparr>)]\<rparr>,
        \<lparr>index_file = Some (Readable \<lparr>idx_dim = 2, idx_vectors = [[1, 0], [0, 1]]\<rparr>),
          metadata_file = Some (Readable [(''b'', \<lparr>faiss_id = 1, data_metadata = []\<rparr>)])\<rparr>)"
    by code_simp
  show ?thesis
    using h1 h2 h3
      live_documents_resolve [OF h1 h2 h3, of "''b''" "\<lparr>faiss_id = 1, data_metadata = []\<rparr>"]
    by simp
qed

text \<open>
  Claim C10 as stated fails on a loaded snapshot, because the constructor checks
  nothing: from a readable empty index beside a readable dictionary that sends \<open>a\<close> to
  position 0, it builds a store, reached with no further operation, whose entry for \<open>a\<close>
  has a \<open>faiss_id\<close> that is not less than the number of vectors, which is 0.
\<close>

theorem unchecked_snapshot_counterexample:
  "init_store \<lparr>index_file = Some (Readable \<lparr>idx_dim = 2, idx_vectors = []\<rparr>),
               metadata_file = Some (Readable [(''a'', \<lparr>faiss_id = 0, data_metadata = []\<rparr>)])\<rparr> 2
     = Inr \<lparr>dimension = 2, index = \<lparr>idx_dim = 2, idx_vectors = []\<rparr>,
            metadata = [(''a'', \<lparr>faiss_id = 0, data_metadata = []\<rparr>)]\<rparr> \<and>
   run_ops exact_numerics
      (\<lparr>dimension = 2, index = \<lparr>idx_dim = 2, idx_vectors = []\<rparr>,
         metadata = [(''a'', \<lparr>faiss_id = 0, data_metadata = []\<rparr>)]\<rparr>,
       \<lparr>index_file = Some (Readable \<lparr>idx_dim = 2, idx_vectors = []\<rparr>),
         metadata_file = Some (Readable [(''a'', \<lparr>faiss_id = 0, data_metadata = []\<rparr>)])\<rparr>) []
     = (\<lparr>dimension = 2, index = \<lparr>idx_dim = 2, idx_vectors = []\<rparr>,
         metadata = [(''a'', \<lparr>faiss_id = 0, data_metadata = []\<rparr>)]\<rparr>,
       \<lparr>index_file = Some (Readable \<lparr>idx_dim = 2, idx_vectors = []\<rparr>),
         metadata_file = Some (Readable [(''a'', \<lparr>faiss_id = 0, data_metadata = []\<rparr>)])\<rparr>) \<and>
   (''a'', \<lparr>faiss_id = 0, data_metadata = []\<rparr>)
     \<in> set (metadata \<lparr>dimension = 2, index = \<lparr>idx_dim = 2, idx_vectors = []\<rparr>,
            metadata = [(''a'', \<lparr>faiss_id = 0, data_metadata = []\<rparr>)]\<rparr>) \<and>
   \<not> faiss_id \<lparr>faiss_id = 0, data_metadata = []\<rparr>
       < int (ntotal (index \<lparr>dimension = 2, index = \<lparr>idx_dim = 2, idx_vectors = []\<rparr>,
            metadata = [(''a'', \<lparr>faiss_id = 0, data_metadata = []\<rparr>)]\<rparr>))"
  by (simp add: init_store_def load_index_def read_file_def run_ops_def ntotal_def)

subsection \<open>Ranks\<close>

lemma search_loop_rank_bounds:
  "r \<in> set (search_loop md i raw) \<Longrightarrow> i < rank r \<and> rank r \<le> i + length raw"
  by (induction md i raw rule: search_loop.induct)
     (fastforce split: option.splits if_splits)+

lemma search_loop_ranks_increase:
  "sorted_wrt (<) (map rank (search_loop md i raw))"
proof (induction md i raw rule: search_loop.induct)
  case (1 md i)
  then show ?case by simp
next
  case (2 md i distance idx rest)
  have later: "i + 1 < rank r" if "r \<in> set (search_loop md (i + 1) rest)" for r
    using search_loop_rank_bounds [OF that] by simp
  show ?case
    using 2 later by (auto split: option.splits)
qed

lemma search_loop_length: "length (search_loop md i raw) \<le> length raw"
proof (induction raw arbitrary: i)
  case Nil
  then show ?case by simp
next
  case (Cons x raw)
  obtain distance idx where x: "x = (distance, idx)" by (cases x)
  have "length (search_loop md (i + 1) raw) \<le> length raw" by (rule Cons)
  then show ?case unfolding x by (simp split: option.splits)
qed

lemma search_loop_source:
  "r \<in> set (search_loop md i raw) \<Longrightarrow>
     find_document md (snd (raw ! (rank r - Suc i))) = Some (document_id r, result_metadata r) \<and>
     similarity r = 1 - min (fst (raw ! (rank r - Suc i)) / 100) 1"
proof (induction md i raw rule: search_loop.induct)
  case (1 md i)
  then show ?case by simp
next
  case (2 md i distance idx rest)
  have tail: "find_document md (snd (((distance, idx) # rest) ! (rank r - Suc i)))
        = Some (document_id r, result_metadata r) \<and>
      similarity r = 1 - min (fst (((distance, idx) # rest) ! (rank r - Suc i)) / 100) 1"
    if mem: "r \<in> set (search_loop md (i + 1) rest)"
      and ih: "find_document md (snd (rest ! (rank r - Suc (i + 1))))
            = Some (document_id r, result_metadata r) \<and>
          similarity r = 1 - min (fst (rest ! (rank r - Suc (i + 1))) / 100) 1"
  proof -
    from search_loop_rank_bounds [OF mem] have "Suc i < rank r" by simp
    then have "rank r - Suc i = Suc (rank r - Suc (i + 1))" by simp
    then show ?thesis using ih by simp
  qed
  show ?case
  proof (cases "find_document md idx")
    case None
    then show ?thesis using 2 tail by auto
  next
    case (Some a)
    obtain doc_id m where a: "a = (doc_id, m)" by (cases a)
    show ?thesis
    proof (cases "doc_id = []")
      case True
      then show ?thesis using 2 tail Some a by auto
    next
      case False
      then show ?thesis using 2 tail Some a by auto
    qed
  qed
qed

lemma search_loop_unfiltered:
  "length (search_loop md i raw) = length raw \<Longrightarrow>
     map rank (search_loop md i raw) = [Suc i..<Suc i + length raw]"
proof (induction md i raw rule: search_loop.induct)
  case (1 md i)
  then show ?case by simp
next
  case (2 md i distance idx rest)
  have le: "length (search_loop md (i + 1) rest) \<le> length rest"
    by (rule search_loop_length)
  show ?case
  proof (cases "find_document md idx")
    case None
    then show ?thesis using 2(4) le by simp
  next
    case (Some a)
    obtain doc_id m where a: "a = (doc_id, m)" by (cases a)
    show ?thesis
    proof (cases "doc_id = []")
      case True
      then show ?thesis using 2(4) le Some a by simp
    next
      case False
      then have "length (search_loop md (i + 1) rest) = length rest"
        using 2(4) Some a by simp
      then have "map rank (search_loop md (i + 1) rest) = [Suc (i + 1)..<Suc (i + 1) + length rest]"
        using 2(2) [OF Some a [symmetric] False] by simp
      then show ?thesis
        using False Some a by (simp del: upt_Suc add: upt_conv_Cons)
    qed
  qed
qed

lemma length_index_search:
  "index_search nm ix q k = Inr raw \<Longrightarrow> length raw = min k (ntotal ix)"
  by (auto simp: index_search_def candidates_def ntotal_def split: if_splits)

text \<open>
  Claim C4, as the code has it: the rank of a result is one plus the index of its
  position in the list returned by the index, and positions that resolve to no document
  are counted. So the ranks of a result list increase strictly and lie between 1 and
  the smaller of the limit and the number of stored vectors; the position at index
  \<open>rank - 1\<close> of the index-level list is the one the result was resolved from; and the
  ranks are 1, 2, 3, ... when no index-level result was dropped.
\<close>

theorem search_ranks:
  assumes "search nm st q limit = Inr rs"
  shows "sorted_wrt (<) (map rank rs) \<and>
    (\<forall>r\<in>set rs. 1 \<le> rank r \<and> rank r \<le> limit \<and> rank r \<le> ntotal (index st)) \<and>
    (\<exists>raw. index_search nm (index st) (astype_float32 nm q) limit = Inr raw \<and>
       (\<forall>r\<in>set rs. find_document (metadata st) (snd (raw ! (rank r - 1)))
            = Some (document_id r, result_metadata r)) \<and>
       (length rs = length raw \<longrightarrow> map rank rs = [1..<Suc (length rs)]))"
proof -
  from assms obtain raw
    where raw: "index_search nm (index st) (astype_float32 nm q) limit = Inr raw"
    and rs: "rs = search_loop (metadata st) 0 raw"
    by (auto simp: search_def split: if_splits sum.splits)
  have len: "length raw = min limit (ntotal (index st))"
    using raw by (rule length_index_search)
  have a: "sorted_wrt (<) (map rank rs)"
    unfolding rs by (rule search_loop_ranks_increase)
  have b: "\<forall>r\<in>set rs. 1 \<le> rank r \<and> rank r \<le> limit \<and> rank r \<le> ntotal (index st)"
  proof
    fix r assume "r \<in> set rs"
    then have "0 < rank r \<and> rank r \<le> 0 + length raw"
      unfolding rs by (rule search_loop_rank_bounds)
    then show "1 \<le> rank r \<and> rank r \<le> limit \<and> rank r \<le> ntotal (index st)"
      using len by simp
  qed
  have c: "\<forall>r\<in>set rs. find_document (metadata st) (snd (raw ! (rank r - 1)))
            = Some (document_id r, result_metadata r)"
  proof
    fix r assume "r \<in> set rs"
    then show "find_document (metadata st) (snd (raw ! (rank r - 1)))
            = Some (document_id r, result_metadata r)"
      unfolding rs using search_loop_source [of r "metadata st" 0 raw] by simp
  qed
  have d: "length rs = length raw \<longrightarrow> map rank rs = [1..<Suc (length rs)]"
    unfolding rs using search_loop_unfiltered [of "metadata st" 0 raw] by simp
  show ?thesis using a b c d raw by blast
qed

theorem search_ranks_witness:
  "search exact_numerics (fst (run_ops exact_numerics (fresh_store 2, no_files)
       [Add ''a'' [1, 0] None, Add ''b'' [0, 1] None, Add ''c'' [1, 1] None, Delete ''b'']))
     [1, 0] 3
     = Inr [\<lparr>document_id = ''a'', similarity = 1, result_metadata = [], rank = 1\<rparr>,
            \<lparr>document_id = ''c'', similarity = 99 / 100, result_metadata = [], rank = 2\<rparr>] \<and>
   sorted_wrt (<) (map rank
           [\<lparr>document_id = ''a'', similarity = 1, result_metadata = [], rank = 1\<rparr>,
            \<lparr>document_id = ''c'', similarity = 99 / 100, result_metadata = [], rank = 2\<rparr>])"
proof -
  have h: "search exact_numerics (fst (run_ops exact_numerics (fresh_store 2, no_files)
       [Add ''a'' [1, 0] None, Add ''b'' [0, 1] None, Add ''c'' [1, 1] None, Delete ''b'']))
     [1, 0] 3
     = Inr [\<lparr>document_id = ''a'', similarity = 1, result_metadata = [], rank = 1\<rparr>,
            \<lparr>document_id = ''c'', similarity = 99 / 100, result_metadata = [], rank = 2\<rparr>]"
    by code_simp
  show ?thesis
    using h search_ranks [OF h] by blast
qed

text \<open>
  Claim C4 as stated fails: with \<open>a\<close> at position 0 deleted and \<open>b\<close> at position 1, a
  search for the vector of \<open>a\<close> returns \<open>b\<close> alone, with rank 2; the ranks are not the
  sequence that starts at 1.
\<close>

theorem search_ranks_counterexample:
  "search exact_numerics (fst (run_ops exact_numerics (fresh_store 2, no_files)
       [Add ''a'' [1, 0] None, Add ''b'' [0, 1] None, Delete ''a''])) [1, 0] 2
     = Inr [\<lparr>document_id = ''b'', similarity = 49 / 50, result_metadata = [], rank = 2\<rparr>] \<and>
   map rank [\<lparr>document_id = ''b'', similarity = 49 / 50, result_metadata = [], rank = 2\<rparr>]
     \<noteq> [1]"
  by code_simp

subsection \<open>Stable sorting by a key\<close>

lemma filter_sorted_wrt_pairs:
  "sorted_wrt P (filter Q xs) \<Longrightarrow> sorted_wrt (\<lambda>a b. Q a \<and> Q b \<longrightarrow> P a b) xs"
  by (induction xs) (auto split: if_splits)

lemma sort_key_ties:
  assumes "sorted_wrt (\<lambda>a b. g a < g b) xs"
  shows "sorted_wrt (\<lambda>a b. f a = f b \<longrightarrow> g a < g b) (sort_key f xs)"
proof -
  have "g (sort_key f xs ! i) < g (sort_key f xs ! j)"
    if ij: "i < j" "j < length (sort_key f xs)" and eq: "f (sort_key f xs ! i) = f (sort_key f xs ! j)"
    for i j
  proof -
    define c where "c = f (sort_key f xs ! i)"
    have "sorted_wrt (\<lambda>a b. g a < g b) (filter (\<lambda>y. f y = c) xs)"
      using assms by (rule sorted_wrt_filter)
    then have "sorted_wrt (\<lambda>a b. g a < g b) (filter (\<lambda>y. f y = c) (sort_key f xs))"
      by (simp add: sort_key_stable)
    then have "sorted_wrt (\<lambda>a b. f a = c \<and> f b = c \<longrightarrow> g a < g b) (sort_key f xs)"
      by (rule filter_sorted_wrt_pairs)
    then show ?thesis
      using ij eq c_def by (auto simp: sorted_wrt_iff_nth_less)
  qed
  then show ?thesis by (simp add: sorted_wrt_iff_nth_less)
qed

text \<open>
  A stable sort by \<open>f\<close> of a list that ascends strictly in \<open>g\<close> ascends strictly in the
  pair of \<open>f\<close> and \<open>g\<close>, compared lexicographically.
\<close>

lemma sort_key_lex:
  assumes "sorted_wrt (\<lambda>a b. g a < g b) xs"
  shows "sorted_wrt (\<lambda>a b. f a < f b \<or> (f a = f b \<and> g a < g b)) (sort_key f xs)"
proof -
  have "f (sort_key f xs ! i) < f (sort_key f xs ! j) \<or>
      (f (sort_key f xs ! i) = f (sort_key f xs ! j) \<and>
       g (sort_key f xs ! i) < g (sort_key f xs ! j))"
    if ij: "i < j" "j < length (sort_key f xs)" for i j
  proof -
    have "sorted (map f (sort_key f xs))" by (rule sorted_sort_key)
    then have le: "f (sort_key f xs ! i) \<le> f (sort_key f xs ! j)"
      using ij sorted_nth_mono [of "map f (sort_key f xs)" i j] by simp
    have "f (sort_key f xs ! i) = f (sort_key f xs ! j) \<longrightarrow>
        g (sort_key f xs ! i) < g (sort_key f xs ! j)"
      using sort_key_ties [OF assms, of f] ij by (simp add: sorted_wrt_iff_nth_less)
    then show ?thesis using le by (auto simp: le_less)
  qed
  then show ?thesis by (simp add: sorted_wrt_iff_nth_less)
qed

lemma sort_key_unique_min:
  assumes "x \<in> set xs" and "\<forall>y\<in>set xs. y \<noteq> x \<longrightarrow> f x < f y"
  shows "\<exists>rest. sort_key f xs = x # rest"
proof (cases "sort_key f xs")
  case Nil
  then have "set (sort_key f xs) = {}" by simp
  then show ?thesis using assms(1) by simp
next
  case (Cons h rest)
  have srt: "sorted (map f (h # rest))"
    using sorted_sort_key [of f xs] Cons by simp
  have hin: "h \<in> set xs" and xin: "x \<in> set (h # rest)"
    using set_sort [of f xs] Cons assms(1) by auto
  have "h = x"
  proof (rule ccontr)
    assume ne: "h \<noteq> x"
    then have "x \<in> set rest" using xin by simp
    then have "f h \<le> f x" using srt by simp
    moreover have "f x < f h" using assms(2) hin ne by simp
    ultimately show False by simp
  qed
  then show ?thesis using Cons by simp
qed

subsection \<open>The index-level search\<close>

lemma candidates_eq:
  "candidates nm ix q
     = map (\<lambda>p. (l2_distance nm q (idx_vectors ix ! p), int p)) [0..<ntotal ix]"
  by (rule nth_equalityI) (simp_all add: candidates_def ntotal_def)

lemma set_candidates:
  "set (candidates nm ix q)
     = (\<lambda>p. (l2_distance nm q (idx_vectors ix ! p), int p)) ` {0..<ntotal ix}"
  by (simp add: candidates_eq)

lemma map_snd_candidates: "map snd (candidates nm ix q) = map int [0..<ntotal ix]"
  by (simp add: candidates_def ntotal_def)

lemma candidates_by_position: "sorted_wrt (\<lambda>a b. snd a < snd b) (candidates nm ix q)"
proof -
  have "sorted_wrt (<) (map snd (candidates nm ix q))"
    by (simp add: map_snd_candidates sorted_wrt_map sorted_wrt_iff_nth_less)
  then show ?thesis by (simp add: sorted_wrt_map)
qed

lemma index_search_eq:
  "length q = idx_dim ix \<Longrightarrow>
     index_search nm ix q k = Inr (take k (sort_key fst (candidates nm ix q)))"
  by (simp add: index_search_def)

text \<open>
  What the search returns, for any distance: the first \<open>k\<close> candidates in the order of
  distance and then position.
\<close>

lemma index_search_order:
  assumes "length q = idx_dim ix"
  shows "\<exists>res. index_search nm ix q k = Inr res \<and>
     length res = min k (ntotal ix) \<and>
     sorted (map fst res) \<and>
     sorted_wrt (\<lambda>a b. fst a = fst b \<longrightarrow> snd a < snd b) res \<and>
     distinct (map snd res) \<and>
     (\<forall>e\<in>set res. 0 \<le> snd e \<and> snd e < int (ntotal ix) \<and>
          fst e = l2_distance nm q (idx_vectors ix ! nat (snd e))) \<and>
     (\<forall>p<ntotal ix. int p \<notin> snd ` set res \<longrightarrow>
          (\<forall>e\<in>set res. fst e < l2_distance nm q (idx_vectors ix ! p) \<or>
             (fst e = l2_distance nm q (idx_vectors ix ! p) \<and> snd e < int p)))"
proof -
  define all where "all = sort_key fst (candidates nm ix q)"
  define res where "res = take k all"
  have res: "index_search nm ix q k = Inr res"
    using assms by (simp add: index_search_eq res_def all_def)
  have set_all: "set all = set (candidates nm ix q)"
    by (simp add: all_def)
  have len: "length res = min k (ntotal ix)"
    by (simp add: res_def all_def candidates_def ntotal_def)
  have sorted_all: "sorted (map fst all)"
    by (simp add: all_def)
  have "sorted (take k (map fst all))"
    using sorted_all by (rule sorted_wrt_take)
  then have srt: "sorted (map fst res)"
    by (simp add: res_def take_map)
  have ties: "sorted_wrt (\<lambda>a b. fst a = fst b \<longrightarrow> snd a < snd b) res"
    unfolding res_def all_def
    by (intro sorted_wrt_take sort_key_ties candidates_by_position)
  have lex_all: "sorted_wrt (\<lambda>a b. fst a < fst b \<or> (fst a = fst b \<and> snd a < snd b)) all"
    unfolding all_def by (intro sort_key_lex candidates_by_position)
  have "distinct (map snd (candidates nm ix q))"
    by (simp add: map_snd_candidates distinct_map)
  then have "distinct (candidates nm ix q) \<and> inj_on snd (set (candidates nm ix q))"
    by (simp add: distinct_map)
  then have "distinct all \<and> inj_on snd (set all)"
    by (simp add: all_def)
  then have "distinct (map snd all)"
    by (simp add: distinct_map)
  then have "distinct (take k (map snd all))"
    by (rule distinct_take)
  then have dist: "distinct (map snd res)"
    by (simp add: res_def take_map)
  have elems: "\<forall>e\<in>set res. 0 \<le> snd e \<and> snd e < int (ntotal ix) \<and>
          fst e = l2_distance nm q (idx_vectors ix ! nat (snd e))"
  proof
    fix e assume "e \<in> set res"
    then have "e \<in> set (candidates nm ix q)"
      using set_all by (auto simp: res_def dest: in_set_takeD)
    then show "0 \<le> snd e \<and> snd e < int (ntotal ix) \<and>
          fst e = l2_distance nm q (idx_vectors ix ! nat (snd e))"
      by (auto simp: set_candidates)
  qed
  have closest: "\<forall>p<ntotal ix. int p \<notin> snd ` set res \<longrightarrow>
          (\<forall>e\<in>set res. fst e < l2_distance nm q (idx_vectors ix ! p) \<or>
             (fst e = l2_distance nm q (idx_vectors ix ! p) \<and> snd e < int p))"
  proof (intro allI impI ballI)
    fix p e
    assume p: "p < ntotal ix" and out: "int p \<notin> snd ` set res" and e: "e \<in> set res"
    have "(l2_distance nm q (idx_vectors ix ! p), int p) \<in> set all"
      using p by (simp add: set_all set_candidates)
    moreover have "set all = set res \<union> set (drop k all)"
      by (metis append_take_drop_id res_def set_append)
    ultimately have late: "(l2_distance nm q (idx_vectors ix ! p), int p) \<in> set (drop k all)"
      using out by force
    have "sorted_wrt (\<lambda>a b. fst a < fst b \<or> (fst a = fst b \<and> snd a < snd b))
        (take k all @ drop k all)"
      using lex_all by simp
    then have "\<forall>x\<in>set (take k all). \<forall>y\<in>set (drop k all).
        fst x < fst y \<or> (fst x = fst y \<and> snd x < snd y)"
      by (simp only: sorted_wrt_append) auto
    then show "fst e < l2_distance nm q (idx_vectors ix ! p) \<or>
        (fst e = l2_distance nm q (idx_vectors ix ! p) \<and> snd e < int p)"
      using e late unfolding res_def by fastforce
  qed
  show ?thesis using res len srt ties dist elems closest by blast
qed

text \<open>
  Claim C6, for the index as modelled from the specification, with the exact squared
  Euclidean distance: a query of the dimension of the index returns \<open>min k n\<close> pairs for
  \<open>n\<close> stored vectors, ascending in distance, the lower position first among equal
  distances, no position twice; each pair holds a position of the index and the
  squared Euclidean distance from the query to the vector stored there; and every
  position left out comes after every position returned, in the order of distance and
  then position: it is farther, or as far and at a higher position.
\<close>

theorem index_search_contract:
  assumes "length q = idx_dim ix"
  shows "\<exists>res. index_search exact_numerics ix q k = Inr res \<and>
     length res = min k (ntotal ix) \<and>
     sorted (map fst res) \<and>
     sorted_wrt (\<lambda>a b. fst a = fst b \<longrightarrow> snd a < snd b) res \<and>
     distinct (map snd res) \<and>
     (\<forall>e\<in>set res. 0 \<le> snd e \<and> snd e < int (ntotal ix) \<and>
          fst e = l2sqr q (idx_vectors ix ! nat (snd e))) \<and>
     (\<forall>p<ntotal ix. int p \<notin> snd ` set res \<longrightarrow>
          (\<forall>e\<in>set res. fst e < l2sqr q (idx_vectors ix ! p) \<or>
             (fst e = l2sqr q (idx_vectors ix ! p) \<and> snd e < int p)))"
  using index_search_order [OF assms, of exact_numerics k] by simp

theorem index_search_contract_witness:
  "length [1 :: rat] = idx_dim \<lparr>idx_dim = 1, idx_vectors = [[3], [1], [2], [1], [0]]\<rparr> \<and>
   index_search exact_numerics \<lparr>idx_dim = 1, idx_vectors = [[3], [1], [2], [1], [0]]\<rparr> [1] 3
     = Inr [(0, 1), (0, 3), (1, 2)] \<and>
   (\<exists>res. index_search exact_numerics
        \<lparr>idx_dim = 1, idx_vectors = [[3], [1], [2], [1], [0]]\<rparr> [1] 3 = Inr res \<and>
      length res = min 3 (ntotal \<lparr>idx_dim = 1, idx_vectors = [[3], [1], [2], [1], [0]]\<rparr>) \<and>
      sorted (map fst res) \<and>
      sorted_wrt (\<lambda>a b. fst a = fst b \<longrightarrow> snd a < snd b) res)"
proof -
  have h: "length [1 :: rat] = idx_dim \<lparr>idx_dim = 1, idx_vectors = [[3], [1], [2], [1], [0]]\<rparr>"
    by simp
  have v: "index_search exact_numerics
      \<lparr>idx_dim = 1, idx_vectors = [[3], [1], [2], [1], [0]]\<rparr> [1] 3
     = Inr [(0, 1), (0, 3), (1, 2)]"
    by code_simp
  show ?thesis
    using h v index_search_contract [OF h, of 3] by blast
qed

subsection \<open>Self-match\<close>

lemma find_document_setitem:
  "\<forall>kv\<in>set md. faiss_id (snd kv) \<noteq> idx \<Longrightarrow>
     find_document (dict_setitem md k \<lparr>faiss_id = idx, data_metadata = m\<rparr>) idx = Some (k, m)"
  by (induction md) auto

lemma index_search_unique_min:
  assumes "length q = idx_dim ix" and "1 \<le> k" and "x \<in> set (candidates nm ix q)"
    and "\<forall>y\<in>set (candidates nm ix q). y \<noteq> x \<longrightarrow> fst x < fst y"
  shows "\<exists>rest. index_search nm ix q k = Inr (x # rest)"
proof -
  from sort_key_unique_min [OF assms(3,4)]
  obtain rest where "sort_key fst (candidates nm ix q) = x # rest" by blast
  moreover obtain k' where "k = Suc k'" using assms(2) by (cases k) simp_all
  ultimately show ?thesis using assms(1) by (simp add: index_search_def)
qed

text \<open>
  Claim C8, as the code has it: let the store have an index of the configured dimension
  and a dictionary that refers to its slots only, and let the identifier not be the
  empty string. Take an embedding of the configured dimension such that, in the distance
  the index computes on vectors after the float32 cast, the embedding is at distance 0
  from itself and at a distance above 0 from every vector already stored. Then adding
  the embedding and searching for it with a limit of at least 1 returns the new document
  first, with rank 1 and similarity 1.
\<close>

theorem self_match:
  assumes "length emb = dimension st" and "idx_dim (index st) = dimension st"
    and "positions_ok (index st) (metadata st)"
    and "doc_id \<noteq> []" and "1 \<le> limit"
    and "l2_distance nm (astype_float32 nm emb) (astype_float32 nm emb) = 0"
    and "\<forall>v\<in>set (idx_vectors (index st)). 0 < l2_distance nm (astype_float32 nm emb) v"
  shows "\<exists>rest. search nm (fst (snd (add_document nm st dk doc_id emb md))) emb limit
     = Inr (\<lparr>document_id = doc_id, similarity = 1,
             result_metadata = (case md of None \<Rightarrow> [] | Some m \<Rightarrow> m), rank = 1\<rparr> # rest)"
proof -
  define c where "c = astype_float32 nm emb"
  define vs where "vs = idx_vectors (index st)"
  define n where "n = length vs"
  define m where "m = (case md of None \<Rightarrow> [] | Some m \<Rightarrow> m)"
  define ix' where "ix' = (index st)\<lparr>idx_vectors := vs @ [c]\<rparr>"
  define md' where "md' = dict_setitem (metadata st) doc_id \<lparr>faiss_id = int n, data_metadata = m\<rparr>"
  define st' where "st' = st\<lparr>index := ix', metadata := md'\<rparr>"
  have added: "fst (snd (add_document nm st dk doc_id emb md)) = st'"
    using assms(1,2)
    by (simp add: add_document_def index_add_def Let_def ntotal_def
        st'_def ix'_def md'_def m_def n_def vs_def c_def)
  have dims: "length emb = dimension st'" "length c = idx_dim ix'" "index st' = ix'"
    "metadata st' = md'"
    using assms(1,2) by (simp_all add: st'_def ix'_def c_def)
  have total: "ntotal ix' = Suc n" "idx_vectors ix' = vs @ [c]"
    by (simp_all add: ix'_def ntotal_def n_def)
  have self: "l2_distance nm c c = 0"
    using assms(6) by (simp add: c_def)
  have mem: "(0, int n) \<in> set (candidates nm ix' c)"
  proof -
    have "(l2_distance nm c (idx_vectors ix' ! n), int n) \<in> set (candidates nm ix' c)"
      unfolding set_candidates total by (rule imageI) simp
    then show ?thesis by (simp add: total n_def self)
  qed
  have others: "\<forall>y\<in>set (candidates nm ix' c). y \<noteq> (0, int n) \<longrightarrow> fst (0 :: rat, int n) < fst y"
  proof (intro ballI impI)
    fix y assume y: "y \<in> set (candidates nm ix' c)" and ne: "y \<noteq> (0, int n)"
    from y obtain p where p: "p < Suc n" "y = (l2_distance nm c ((vs @ [c]) ! p), int p)"
      by (auto simp: set_candidates total)
    have "p \<noteq> n"
    proof
      assume "p = n"
      then have "y = (0, int n)" using p(2) by (simp add: n_def self)
      then show False using ne by simp
    qed
    then have pn: "p < n" using p(1) by simp
    then have v: "(vs @ [c]) ! p = vs ! p" "vs ! p \<in> set vs"
      by (simp_all add: nth_append n_def)
    then have "0 < l2_distance nm c (vs ! p)"
      using assms(7) by (simp add: vs_def c_def)
    then show "fst (0 :: rat, int n) < fst y"
      using p(2) v(1) by simp
  qed
  from index_search_unique_min [OF dims(2) assms(5) mem others]
  obtain raw where raw: "index_search nm ix' c limit = Inr ((0, int n) # raw)" by blast
  have "\<forall>kv\<in>set (metadata st). faiss_id (snd kv) \<noteq> int n"
    using assms(3) by (auto simp: positions_ok_def list_all_iff ntotal_def n_def vs_def)
  then have found: "find_document md' (int n) = Some (doc_id, m)"
    unfolding md'_def by (rule find_document_setitem)
  have "search nm st' emb limit
      = Inr (\<lparr>document_id = doc_id, similarity = 1, result_metadata = m, rank = 1\<rparr>
             # search_loop md' 1 raw)"
    using dims raw found assms(4) by (simp add: search_def c_def [symmetric])
  then show ?thesis
    unfolding added m_def by blast
qed

theorem self_match_witness:
  "length [0, 1 :: rat] = dimension \<lparr>dimension = 2, index = \<lparr>idx_dim = 2, idx_vectors = [[1, 0]]\<rparr>,
       metadata = [(''a'', \<lparr>faiss_id = 0, data_metadata = []\<rparr>)]\<rparr> \<and>
   ''b'' \<noteq> [] \<and> (1::nat) \<le> 1 \<and>
   l2_distance exact_numerics (astype_float32 exact_numerics [0, 1])
      (astype_float32 exact_numerics [0, 1]) = 0 \<and>
   0 < l2_distance exact_numerics (astype_float32 exact_numerics [0, 1]) [1, 0] \<and>
   (\<exists>rest. search exact_numerics (fst (snd (add_document exact_numerics
       \<lparr>dimension = 2, index = \<lparr>idx_dim = 2, idx_vectors = [[1, 0]]\<rparr>,
         metadata = [(''a'', \<lparr>faiss_id = 0, data_metadata = []\<rparr>)]\<rparr>
       no_files ''b'' [0, 1] None))) [0, 1] 1
     = Inr (\<lparr>document_id = ''b'', similarity = 1, result_metadata = [], rank = 1\<rparr> # rest))"
  using self_match
    [where emb = "[0, 1]" and nm = exact_numerics and doc_id = "''b''" and limit = 1
       and dk = no_files and md = None
       and st = "\<lparr>dimension = 2, index = \<lparr>idx_dim = 2, idx_vectors = [[1, 0]]\<rparr>,
         metadata = [(''a'', \<lparr>faiss_id = 0, data_metadata = []\<rparr>)]\<rparr>"]
  by (simp add: positions_ok_def ntotal_def l2sqr_def)

text \<open>
  Claim C8 as stated fails in two ways. A document added under the empty identifier is
  never returned, because the test of line 101 treats the empty string as no document.
  And when the same vector is already stored under \<open>a\<close>, a search with limit 1 after
  adding it again under \<open>b\<close> returns \<open>a\<close>, the earlier position, and not \<open>b\<close>.
\<close>

theorem self_match_counterexample:
  "search exact_numerics
      (fst (snd (add_document exact_numerics (fresh_store 2) no_files '''' [1, 0] None)))
      [1, 0] 1 = Inr [] \<and>
   search exact_numerics (fst (snd (add_document exact_numerics
       (fst (run_ops exact_numerics (fresh_store 2, no_files) [Add ''a'' [1, 0] None]))
       (snd (run_ops exact_numerics (fresh_store 2, no_files) [Add ''a'' [1, 0] None]))
       ''b'' [1, 0] None))) [1, 0] 1
     = Inr [\<lparr>document_id = ''a'', similarity = 1, result_metadata = [], rank = 1\<rparr>]"
  by code_simp

end
